theory Spec2Isabelle
  imports Complex_Main
begin

section \<open>Values of the workflow (src/inngest/functions/podcast-processor.ts)\<close>

text \<open>
  A JavaScript object used as a string-keyed record (\<open>Record<string, T>\<close>) keeps its
  keys in insertion order; an assignment \<open>o[k] = v\<close> overwrites the slot of an existing
  key and appends a new one otherwise.
\<close>

type_synonym 'a obj = "(string \<times> 'a) list"

fun obj_set :: "'a obj \<Rightarrow> string \<Rightarrow> 'a \<Rightarrow> 'a obj" where
  "obj_set [] k v = [(k, v)]"
| "obj_set ((k', v') # kvs) k v =
     (if k' = k then (k, v) # kvs else (k', v') # obj_set kvs k v)"

definition obj_keys :: "'a obj \<Rightarrow> string list" where
  "obj_keys kvs = map fst kvs"

text \<open>
  A thrown value. The handler inspects it with \<open>instanceof Error\<close>, reads \<open>.message\<close>
  and \<open>.stack\<close>, converts it with \<open>String(...)\<close>, and reads \<open>.statusCode\<close> and
  \<open>.status\<close>, which count only when their \<open>typeof\<close> is \<open>"number"\<close>
  (\<open>None\<close> stands for every other case).
\<close>

record thrown =
  is_Error :: bool
  err_message :: string
  err_stack :: "string option"
  as_String :: string
  thr_statusCode :: "int option"
  thr_status :: "int option"

text \<open>The trigger event's data; \<open>ev_plan\<close> is \<open>None\<close> when the field is absent.\<close>

record event_data =
  ev_projectId :: string
  ev_fileUrl :: string
  ev_plan :: "string option"

text \<open>The value returned on success: \<open>{ success: true, projectId, plan }\<close>.\<close>

record run_result =
  res_success :: bool
  res_projectId :: string
  res_plan :: string

text \<open>
  The arguments of the calls to \<open>convex.mutation\<close>: \<open>updateProjectStatus\<close>,
  \<open>updateJobStatus\<close> (a partial object of status fields), \<open>saveJobErrors\<close> and
  \<open>recordError\<close> (project, message, step, \<open>details.statusCode\<close>, \<open>details.stack\<close>).
\<close>

datatype mutation_req =
    UpdateProjectStatus string string
  | UpdateJobStatus string "string obj"
  | SaveJobErrors string "string obj"
  | RecordError string string string "int option" "string option"

text \<open>What a run does to the outside world, in order.\<close>

datatype 'v event =
    Mutation mutation_req
  | Transcribe string string string
  | Launch string
  | SaveResults string "'v obj"

text \<open>
  The collaborators the workflow imports. Each is a function of its arguments that
  either succeeds or throws; a promise is represented by the outcome it settles with
  (\<open>Inl\<close> the rejection reason, \<open>Inr\<close> the fulfilment value). \<open>step.run\<close> hands the
  outcome of its callback to the workflow unchanged once the platform's retries are
  used up, so a step is modelled by the outcome of its callback.
\<close>

record ('t, 'v) env =
  convex_mutation :: "mutation_req \<Rightarrow> thrown option"
  transcribeWithAssemblyAI :: "string \<Rightarrow> string \<Rightarrow> string \<Rightarrow> thrown + 't"
  generateSummary :: "'t \<Rightarrow> thrown + 'v"
  generateSocialPosts :: "'t \<Rightarrow> thrown + 'v"
  generateTitles :: "'t \<Rightarrow> thrown + 'v"
  generateHashtags :: "'t \<Rightarrow> thrown + 'v"
  generateKeyMoments :: "'t \<Rightarrow> thrown + 'v"
  generateYouTubeTimestamps :: "'t \<Rightarrow> thrown + 'v"
  saveResultsToConvex :: "string \<Rightarrow> 'v obj \<Rightarrow> thrown option"

section \<open>The generation fan-out\<close>

text \<open>
  Lines 86 to 109: the two arrays \<open>jobs\<close> and \<open>jobNames\<close> are filled in lockstep; a
  job starts when its promise is created, that is when it is pushed.
\<close>

definition launch_jobs ::
  "('t, 'v) env \<Rightarrow> string \<Rightarrow> 't \<Rightarrow> (thrown + 'v) list \<times> string list" where
  "launch_jobs env plan transcript =
     (let jobs = []; jobNames = [];
          jobs = jobs @ [generateSummary env transcript];
          jobNames = jobNames @ [''summary''];
          (jobs, jobNames) =
            (if plan = ''pro'' \<or> plan = ''ultra''
             then (jobs @ [generateSocialPosts env transcript,
                           generateTitles env transcript,
                           generateHashtags env transcript],
                   jobNames @ [''socialPosts'', ''titles'', ''hashtags''])
             else (jobs, jobNames));
          (jobs, jobNames) =
            (if plan = ''ultra''
             then (jobs @ [generateKeyMoments env transcript,
                           generateYouTubeTimestamps env transcript],
                   jobNames @ [''keyMoments'', ''youtubeTimestamps''])
             else (jobs, jobNames))
      in (jobs, jobNames))"

text \<open>The names pushed for a plan: the job-selection policy.\<close>

definition selectJobs :: "string \<Rightarrow> string list" where
  "selectJobs plan =
     (let jobNames = [''summary''];
          jobNames = (if plan = ''pro'' \<or> plan = ''ultra''
                      then jobNames @ [''socialPosts'', ''titles'', ''hashtags'']
                      else jobNames);
          jobNames = (if plan = ''ultra''
                      then jobNames @ [''keyMoments'', ''youtubeTimestamps'']
                      else jobNames)
      in jobNames)"

text \<open>An element of the array \<open>Promise.allSettled\<close> resolves with.\<close>

datatype 'v settled = Fulfilled 'v | Rejected thrown

definition settle :: "thrown + 'v \<Rightarrow> 'v settled" where
  "settle p = (case p of Inl reason \<Rightarrow> Rejected reason | Inr v \<Rightarrow> Fulfilled v)"

definition allSettled :: "(thrown + 'v) list \<Rightarrow> 'v settled list" where
  "allSettled jobs = map settle jobs"

text \<open>Lines 122 to 125: the message kept for a rejected job.\<close>

definition errorMessage :: "thrown \<Rightarrow> string" where
  "errorMessage reason = (if is_Error reason then err_message reason else as_String reason)"

text \<open>Reading an array past its end gives \<open>undefined\<close>, which as a key is that word.\<close>

definition name_at :: "string list \<Rightarrow> nat \<Rightarrow> string" where
  "name_at jobNames idx = (if idx < length jobNames then jobNames ! idx else ''undefined'')"

text \<open>Lines 113 to 130: \<open>results.forEach((result, idx) => ...)\<close> from index \<open>idx\<close> on.\<close>

fun aggregate ::
  "string list \<Rightarrow> 'v settled list \<Rightarrow> nat \<Rightarrow> 'v obj \<times> string obj \<Rightarrow> 'v obj \<times> string obj" where
  "aggregate jobNames [] idx acc = acc"
| "aggregate jobNames (result # rest) idx (generatedContent, jobErrors) =
     (let jobName = name_at jobNames idx
      in case result of
           Fulfilled v \<Rightarrow>
             aggregate jobNames rest (Suc idx) (obj_set generatedContent jobName v, jobErrors)
         | Rejected reason \<Rightarrow>
             aggregate jobNames rest (Suc idx)
               (generatedContent, obj_set jobErrors jobName (errorMessage reason)))"

section \<open>The workflow\<close>

type_synonym ('a, 'v) outcome = "(thrown + 'a) \<times> 'v event list"

definition and_then ::
  "('a, 'v) outcome \<Rightarrow> ('a \<Rightarrow> 'v event list \<Rightarrow> ('b, 'v) outcome) \<Rightarrow> ('b, 'v) outcome" where
  "and_then m f = (case m of (Inl e, tr) \<Rightarrow> (Inl e, tr) | (Inr x, tr) \<Rightarrow> f x tr)"

definition step_mutation ::
  "('t, 'v) env \<Rightarrow> mutation_req \<Rightarrow> 'v event list \<Rightarrow> (unit, 'v) outcome" where
  "step_mutation env req tr =
     (case convex_mutation env req of
        None \<Rightarrow> (Inr (), tr @ [Mutation req])
      | Some e \<Rightarrow> (Inl e, tr @ [Mutation req]))"

definition step_transcribe ::
  "('t, 'v) env \<Rightarrow> string \<Rightarrow> string \<Rightarrow> string \<Rightarrow> 'v event list \<Rightarrow> ('t, 'v) outcome" where
  "step_transcribe env fileUrl projectId plan tr =
     (transcribeWithAssemblyAI env fileUrl projectId plan,
      tr @ [Transcribe fileUrl projectId plan])"

definition step_save_results ::
  "('t, 'v) env \<Rightarrow> string \<Rightarrow> 'v obj \<Rightarrow> 'v event list \<Rightarrow> (unit, 'v) outcome" where
  "step_save_results env projectId generatedContent tr =
     (case saveResultsToConvex env projectId generatedContent of
        None \<Rightarrow> (Inr (), tr @ [SaveResults projectId generatedContent])
      | Some e \<Rightarrow> (Inl e, tr @ [SaveResults projectId generatedContent]))"

text \<open>Lines 111 to 130: the join and the aggregation of its outcomes.\<close>

definition settle_and_collect ::
  "string list \<Rightarrow> (thrown + 'v) list \<Rightarrow> 'v obj \<times> string obj" where
  "settle_and_collect jobNames jobs =
     (let results = allSettled jobs;
          generatedContent = [];
          jobErrors = []
      in aggregate jobNames results 0 (generatedContent, jobErrors))"

text \<open>The two records the fan-out of a plan ends with.\<close>

definition fan_out :: "('t, 'v) env \<Rightarrow> string \<Rightarrow> 't \<Rightarrow> 'v obj \<times> string obj" where
  "fan_out env plan transcript =
     (let (jobs, jobNames) = launch_jobs env plan transcript
      in settle_and_collect jobNames jobs)"

text \<open>Lines 86 to 152: from the first push to the return.\<close>

definition generation_phase ::
  "('t, 'v) env \<Rightarrow> string \<Rightarrow> string \<Rightarrow> 't \<Rightarrow> 'v event list \<Rightarrow> (run_result, 'v) outcome" where
  "generation_phase env projectId plan transcript tr0 =
     (let (jobs, jobNames) = launch_jobs env plan transcript;
          tr1 = tr0 @ map Launch jobNames;
          (generatedContent, jobErrors) = settle_and_collect jobNames jobs
      in and_then
           (if length (obj_keys jobErrors) > 0
            then step_mutation env (SaveJobErrors projectId jobErrors) tr1
            else (Inr (), tr1)) (\<lambda>_ tr.
         and_then
           (step_mutation env
              (UpdateJobStatus projectId [(''contentGeneration'', ''completed'')]) tr) (\<lambda>_ tr.
         and_then (step_save_results env projectId generatedContent tr) (\<lambda>_ tr.
           (Inr \<lparr>res_success = True, res_projectId = projectId, res_plan = plan\<rparr>, tr)))))"

text \<open>Lines 54 to 152: the body of the \<open>try\<close>.\<close>

definition workflow_try ::
  "('t, 'v) env \<Rightarrow> string \<Rightarrow> string \<Rightarrow> string \<Rightarrow> (run_result, 'v) outcome" where
  "workflow_try env projectId fileUrl plan =
     and_then (step_mutation env (UpdateProjectStatus projectId ''processing'') []) (\<lambda>_ tr.
     and_then
       (step_mutation env (UpdateJobStatus projectId [(''transcription'', ''running'')]) tr)
       (\<lambda>_ tr.
     and_then (step_transcribe env fileUrl projectId plan tr) (\<lambda>transcript tr.
     and_then
       (step_mutation env (UpdateJobStatus projectId [(''transcription'', ''completed'')]) tr)
       (\<lambda>_ tr.
     and_then
       (step_mutation env (UpdateJobStatus projectId [(''contentGeneration'', ''running'')]) tr)
       (\<lambda>_ tr.
     generation_phase env projectId plan transcript tr)))))"

text \<open>Line 49: \<open>userPlan || "free"\<close>; the absent and the empty string are falsy.\<close>

definition effective_plan :: "string option \<Rightarrow> string" where
  "effective_plan userPlan =
     (case userPlan of None \<Rightarrow> ''free'' | Some s \<Rightarrow> if s = [] then ''free'' else s)"

text \<open>Lines 157 to 178: the request the \<open>catch\<close> block sends.\<close>

definition error_record :: "string \<Rightarrow> thrown \<Rightarrow> mutation_req" where
  "error_record projectId error =
     (let statusCode =
            (case thr_statusCode error of
               Some n \<Rightarrow> Some n
             | None \<Rightarrow> (case thr_status error of Some n \<Rightarrow> Some n | None \<Rightarrow> None))
      in RecordError projectId
           (if is_Error error then err_message error else ''Unknown error occurred'')
           ''workflow''
           statusCode
           (if is_Error error then err_stack error else Some (as_String error)))"

text \<open>
  Lines 47 to 185: the handler. In the \<open>catch\<close> block the outcome of the recording
  mutation is dropped (its own failure is caught and logged) and the caught error is
  thrown again.
\<close>

definition podcastProcessor :: "('t, 'v) env \<Rightarrow> event_data \<Rightarrow> (run_result, 'v) outcome" where
  "podcastProcessor env ev =
     (let projectId = ev_projectId ev;
          fileUrl = ev_fileUrl ev;
          plan = effective_plan (ev_plan ev)
      in case workflow_try env projectId fileUrl plan of
           (Inr r, tr) \<Rightarrow> (Inr r, tr)
         | (Inl error, tr) \<Rightarrow>
             (let (_, tr') = step_mutation env (error_record projectId error) tr
              in (Inl error, tr')))"

section \<open>The join of the runtime\<close>

text \<open>
  \<open>Promise.allSettled\<close> belongs to the language runtime. Its join keeps an array of
  values with one slot for each input promise and a count of the elements still
  outstanding. When the promise at index \<open>i\<close> settles, its outcome is written to slot
  \<open>i\<close> and the count goes down by one; the returned promise is fulfilled with the array
  when, and only when, the count reaches zero. A schedule is the order in which the
  input promises settle, given by their indices.
\<close>

record 'v join_state =
  join_values :: "'v settled option list"
  join_remaining :: nat
  join_resolved :: "'v settled option list option"

definition join_start :: "nat \<Rightarrow> 'v join_state" where
  "join_start n =
     \<lparr>join_values = replicate n None,
      join_remaining = n,
      join_resolved = (if n = 0 then Some [] else None)\<rparr>"

definition join_settle :: "(thrown + 'v) list \<Rightarrow> 'v join_state \<Rightarrow> nat \<Rightarrow> 'v join_state" where
  "join_settle jobs st i =
     (let values' = (join_values st)[i := Some (settle (jobs ! i))];
          remaining' = join_remaining st - 1
      in \<lparr>join_values = values',
          join_remaining = remaining',
          join_resolved = (if remaining' = 0 then Some values' else join_resolved st)\<rparr>)"

definition join_run :: "(thrown + 'v) list \<Rightarrow> nat list \<Rightarrow> 'v join_state" where
  "join_run jobs schedule = foldl (join_settle jobs) (join_start (length jobs)) schedule"

section \<open>The progress estimator (src/components/projects/compact-progress.tsx)\<close>

text \<open>
  The fields of \<open>jobStatus\<close> the component reads; \<open>None\<close> is a field that is missing
  or holds no string.
\<close>

record jobStatus =
  js_transcription :: "string option"
  js_contentGeneration :: "string option"
  js_keyMoments :: "string option"
  js_summary :: "string option"
  js_socialPosts :: "string option"
  js_titles :: "string option"
  js_hashtags :: "string option"
  js_youtubeTimestamps :: "string option"

record progress_props =
  p_jobStatus :: "jobStatus option"
  p_fileDuration :: "real option"
  p_createdAt :: int

definition isJobState :: "string option \<Rightarrow> bool" where
  "isJobState value =
     (value = Some ''pending'' \<or> value = Some ''running'' \<or>
      value = Some ''completed'' \<or> value = Some ''failed'')"

text \<open>\<open>jobStatus?.f\<close>, then \<open>isJobState(s) ? s : undefined\<close>.\<close>

definition read_field :: "progress_props \<Rightarrow> (jobStatus \<Rightarrow> string option) \<Rightarrow> string option" where
  "read_field props f = (case p_jobStatus props of None \<Rightarrow> None | Some js \<Rightarrow> f js)"

definition normalized :: "string option \<Rightarrow> string option" where
  "normalized s = (if isJobState s then s else None)"

definition transcriptionStatus :: "progress_props \<Rightarrow> string option" where
  "transcriptionStatus props = normalized (read_field props js_transcription)"

definition contentGenerationStatus :: "progress_props \<Rightarrow> string option" where
  "contentGenerationStatus props = normalized (read_field props js_contentGeneration)"

definition stepStatuses :: "progress_props \<Rightarrow> string option list" where
  "stepStatuses props =
     (let maybe = [read_field props js_keyMoments,
                   read_field props js_summary,
                   read_field props js_socialPosts,
                   read_field props js_titles,
                   read_field props js_hashtags,
                   read_field props js_youtubeTimestamps]
      in map normalized maybe)"

definition completedSteps :: "progress_props \<Rightarrow> nat" where
  "completedSteps props = length (filter (\<lambda>s. s = Some ''completed'') (stepStatuses props))"

definition totalSteps :: "progress_props \<Rightarrow> nat" where
  "totalSteps props = length (stepStatuses props)"

definition anyFailed :: "progress_props \<Rightarrow> bool" where
  "anyFailed props =
     (transcriptionStatus props = Some ''failed'' \<or>
      contentGenerationStatus props = Some ''failed'' \<or>
      list_ex (\<lambda>s. s = Some ''failed'') (stepStatuses props))"

definition isTranscribing :: "progress_props \<Rightarrow> bool" where
  "isTranscribing props = (transcriptionStatus props = Some ''running'')"

definition isTranscribed :: "progress_props \<Rightarrow> bool" where
  "isTranscribed props = (transcriptionStatus props = Some ''completed'')"

definition isGenerated :: "progress_props \<Rightarrow> bool" where
  "isGenerated props = (totalSteps props > 0 \<and> completedSteps props = totalSteps props)"

text \<open>
  The five badge texts, in the order of lines 76 to 80: failed, transcribing,
  generating content, complete, processing.
\<close>

datatype status_text = TextFailed | TextTranscribing | TextGenerating | TextComplete | TextProcessing

definition statusText :: "progress_props \<Rightarrow> status_text" where
  "statusText props =
     (if anyFailed props then TextFailed
      else if isTranscribing props then TextTranscribing
      else if isTranscribed props \<and> \<not> isGenerated props then TextGenerating
      else if isTranscribed props \<and> isGenerated props then TextComplete
      else TextProcessing)"

text \<open>
  Lines 83 to 123: the effect that sets \<open>progress\<close>, as a function of the previous
  value \<open>p\<close> and of the clock \<open>now\<close> (\<open>Date.now()\<close>, in milliseconds). Numbers are
  taken as reals. Two things the component imports are parameters: \<open>cap\<close> is the
  constant \<open>PROGRESS_CAP_PERCENTAGE\<close> and \<open>conservative fileDuration\<close> is the field
  \<open>conservative\<close> of \<open>estimateAssemblyAITime(fileDuration)\<close>.
\<close>

definition progress_effect ::
  "real \<Rightarrow> (real option \<Rightarrow> real) \<Rightarrow> progress_props \<Rightarrow> int \<Rightarrow> real \<Rightarrow> real" where
  "progress_effect cap conservative props now p =
     (if anyFailed props then min p 95
      else if isTranscribed props \<and> isGenerated props then 100
      else if isTranscribing props then
        (let elapsed = (now - p_createdAt props) div 1000;
             raw = (real_of_int elapsed / conservative (p_fileDuration props)) * 100;
             capped = min cap raw;
             phase1 = min 50 ((capped / cap) * 50)
         in phase1)
      else if isTranscribed props then
        (let stepProgress =
               (if totalSteps props > 0
                then (real (completedSteps props) / real (totalSteps props)) * 50
                else 0)
         in 50 + stepProgress)
      else 10)"

text \<open>
  The order of the pipeline on a normalised transcription status: not started
  (absent or pending), running, completed.
\<close>

definition phase_rank :: "string option \<Rightarrow> nat" where
  "phase_rank s = (if s = Some ''completed'' then 2 else if s = Some ''running'' then 1 else 0)"

section \<open>What the aggregation computes\<close>

text \<open>
  The entries of a list of named outcomes that are fulfilled, with their values, and
  those that are rejected, with their messages, each in the order of the list.
\<close>

fun fulfilled_entries :: "(string \<times> 'v settled) list \<Rightarrow> 'v obj" where
  "fulfilled_entries [] = []"
| "fulfilled_entries ((n, Fulfilled v) # xs) = (n, v) # fulfilled_entries xs"
| "fulfilled_entries ((n, Rejected e) # xs) = fulfilled_entries xs"

fun rejected_entries :: "(string \<times> 'v settled) list \<Rightarrow> string obj" where
  "rejected_entries [] = []"
| "rejected_entries ((n, Fulfilled v) # xs) = rejected_entries xs"
| "rejected_entries ((n, Rejected e) # xs) = (n, errorMessage e) # rejected_entries xs"

fun is_RecordError :: "mutation_req \<Rightarrow> bool" where
  "is_RecordError (RecordError projectId message step statusCode stack) = True"
| "is_RecordError req = False"

fun is_Launch :: "'v event \<Rightarrow> bool" where
  "is_Launch (Launch n) = True"
| "is_Launch ev = False"

fun is_error_record :: "'v event \<Rightarrow> bool" where
  "is_error_record (Mutation req) = is_RecordError req"
| "is_error_record ev = False"

fun sets_contentGeneration :: "'v event \<Rightarrow> bool" where
  "sets_contentGeneration (Mutation (UpdateJobStatus projectId changes)) =
     (''contentGeneration'' \<in> set (obj_keys changes))"
| "sets_contentGeneration ev = False"

text \<open>
  The values array of the join once the promises of a schedule have settled: slot \<open>i\<close>
  is written if and only if \<open>i\<close> is in the schedule.
\<close>

definition slots_after :: "(thrown + 'v) list \<Rightarrow> nat list \<Rightarrow> 'v settled option list" where
  "slots_after jobs schedule =
     map (\<lambda>i. if i \<in> set schedule then Some (settle (jobs ! i)) else None) [0..<length jobs]"

text \<open>The value the effect sets while transcription runs (lines 99 to 105).\<close>

definition phase1 :: "real \<Rightarrow> real \<Rightarrow> int \<Rightarrow> int \<Rightarrow> real" where
  "phase1 cap est created now =
     min 50 ((min cap ((real_of_int ((now - created) div 1000) / est) * 100) / cap) * 50)"

section \<open>Concrete runs and states\<close>

definition plain_error :: "string \<Rightarrow> thrown" where
  "plain_error msg =
     \<lparr>is_Error = True, err_message = msg, err_stack = Some ''Error: at job'',
      as_String = ''Error: '' @ msg, thr_statusCode = None, thr_status = None\<rparr>"

text \<open>Every collaborator succeeds; generation job number \<open>k\<close> yields the value \<open>k\<close>.\<close>

definition env_ok :: "(nat, nat) env" where
  "env_ok =
     \<lparr>convex_mutation = (\<lambda>req. None),
      transcribeWithAssemblyAI = (\<lambda>fileUrl projectId plan. Inr 7),
      generateSummary = (\<lambda>t. Inr 1),
      generateSocialPosts = (\<lambda>t. Inr 2),
      generateTitles = (\<lambda>t. Inr 3),
      generateHashtags = (\<lambda>t. Inr 4),
      generateKeyMoments = (\<lambda>t. Inr 5),
      generateYouTubeTimestamps = (\<lambda>t. Inr 6),
      saveResultsToConvex = (\<lambda>projectId content. None)\<rparr>"

text \<open>As \<open>env_ok\<close>, but the titles job is rejected.\<close>

definition env_titles_fail :: "(nat, nat) env" where
  "env_titles_fail = env_ok\<lparr>generateTitles := (\<lambda>t. Inl (plain_error ''rate limited''))\<rparr>"

text \<open>Transcription throws, and so does every mutation that records an error.\<close>

definition env_transcribe_fail :: "(nat, nat) env" where
  "env_transcribe_fail =
     env_ok\<lparr>transcribeWithAssemblyAI :=
              (\<lambda>fileUrl projectId plan. Inl (plain_error ''transcription failed'')),
            convex_mutation :=
              (\<lambda>req. case req of
                        RecordError a b c d e \<Rightarrow> Some (plain_error ''store down'')
                      | _ \<Rightarrow> None)\<rparr>"

definition event_of :: "string option \<Rightarrow> event_data" where
  "event_of userPlan =
     \<lparr>ev_projectId = ''p1'', ev_fileUrl = ''blob://a.mp3'', ev_plan = userPlan\<rparr>"

text \<open>A constant estimate of 100 seconds.\<close>

definition conservative_100 :: "real option \<Rightarrow> real" where
  "conservative_100 fileDuration = 100"

definition status_of ::
  "string option \<Rightarrow> string option list \<Rightarrow> progress_props" where
  "status_of t steps =
     \<lparr>p_jobStatus =
        Some \<lparr>js_transcription = t, js_contentGeneration = None,
              js_keyMoments = steps ! 0, js_summary = steps ! 1, js_socialPosts = steps ! 2,
              js_titles = steps ! 3, js_hashtags = steps ! 4,
              js_youtubeTimestamps = steps ! 5\<rparr>,
      p_fileDuration = None,
      p_createdAt = 0\<rparr>"

text \<open>
  A pro project half way: of its four jobs, summary and socialPosts are completed,
  titles and hashtags are running; keyMoments and youtubeTimestamps do not exist.
\<close>

definition pro_half_done :: progress_props where
  "pro_half_done =
     status_of (Some ''completed'')
       [None, Some ''completed'', Some ''completed'', Some ''running'', Some ''running'', None]"

definition three_of_six :: progress_props where
  "three_of_six =
     status_of (Some ''completed'')
       [Some ''completed'', Some ''completed'', Some ''completed'',
        Some ''running'', Some ''running'', Some ''running'']"

definition not_started :: progress_props where
  "not_started = status_of (Some ''pending'') [None, None, None, None, None, None]"

definition transcribing :: progress_props where
  "transcribing = status_of (Some ''running'') [None, None, None, None, None, None]"

text \<open>
  Saving the results throws a plain object with a numeric \<open>status\<close>, and the mutation
  that records the error throws too.
\<close>

definition service_unavailable :: thrown where
  "service_unavailable =
     \<lparr>is_Error = False, err_message = [], err_stack = None,
      as_String = ''[object Object]'', thr_statusCode = None, thr_status = Some 503\<rparr>"

definition env_save_fail :: "(nat, nat) env" where
  "env_save_fail =
     env_ok\<lparr>saveResultsToConvex := (\<lambda>projectId content. Some service_unavailable),
            convex_mutation :=
              (\<lambda>req. case req of
                        RecordError a b c d e \<Rightarrow> Some (plain_error ''store down'')
                      | _ \<Rightarrow> None)\<rparr>"

section \<open>The job-selection policy\<close>

lemma selectJobs_launch: "snd (launch_jobs env plan transcript) = selectJobs plan"
  by (simp add: launch_jobs_def selectJobs_def Let_def)

text \<open>
  C4. The names pushed are summary alone for the free plan, summary, socialPosts,
  titles and hashtags for pro, and these four followed by keyMoments and
  youtubeTimestamps for ultra; the free set is contained in the pro set, the pro set in
  the ultra set, and summary is selected whatever the plan string is.
\<close>

theorem selectJobs_tiers:
  "selectJobs ''free'' = [''summary'']
   \<and> selectJobs ''pro'' = [''summary'', ''socialPosts'', ''titles'', ''hashtags'']
   \<and> selectJobs ''ultra'' =
       [''summary'', ''socialPosts'', ''titles'', ''hashtags'', ''keyMoments'',
        ''youtubeTimestamps'']
   \<and> set (selectJobs ''free'') \<subseteq> set (selectJobs ''pro'')
   \<and> set (selectJobs ''pro'') \<subseteq> set (selectJobs ''ultra'')
   \<and> ''summary'' \<in> set (selectJobs plan)"
  by (simp add: selectJobs_def Let_def)

section \<open>The aggregation of the fan-out\<close>

lemma obj_set_fresh: "k \<notin> set (obj_keys kvs) \<Longrightarrow> obj_set kvs k v = kvs @ [(k, v)]"
  by (induction kvs) (auto simp: obj_keys_def)

lemma nth_not_in_take: "distinct xs \<Longrightarrow> i < length xs \<Longrightarrow> xs ! i \<notin> set (take i xs)"
  by (metis distinct_take id_take_nth_drop not_distinct_conv_prefix)

lemma aggregate_entries:
  "distinct names \<Longrightarrow> idx + length rs = length names \<Longrightarrow>
   set (obj_keys gc) \<union> set (obj_keys je) \<subseteq> set (take idx names) \<Longrightarrow>
   aggregate names rs idx (gc, je) =
     (gc @ fulfilled_entries (zip (drop idx names) rs),
      je @ rejected_entries (zip (drop idx names) rs))"
proof (induction rs arbitrary: idx gc je)
  case Nil
  then show ?case by simp
next
  case (Cons r rs)
  from Cons.prems have lt: "idx < length names" by simp
  have dr: "drop idx names = names ! idx # drop (Suc idx) names"
    using lt by (simp add: Cons_nth_drop_Suc)
  have fresh: "names ! idx \<notin> set (take idx names)"
    using Cons.prems(1) lt by (rule nth_not_in_take)
  have tk: "set (take (Suc idx) names) = insert (names ! idx) (set (take idx names))"
    using lt by (simp add: take_Suc_conv_app_nth)
  show ?case
  proof (cases r)
    case (Fulfilled v)
    have g: "obj_set gc (names ! idx) v = gc @ [(names ! idx, v)]"
      using fresh Cons.prems(3) by (intro obj_set_fresh) auto
    have "aggregate names rs (Suc idx) (gc @ [(names ! idx, v)], je) =
      ((gc @ [(names ! idx, v)]) @ fulfilled_entries (zip (drop (Suc idx) names) rs),
       je @ rejected_entries (zip (drop (Suc idx) names) rs))"
      using Cons.prems by (intro Cons.IH) (auto simp: tk obj_keys_def)
    then show ?thesis
      using lt by (simp add: Fulfilled name_at_def g dr)
  next
    case (Rejected e)
    have g: "obj_set je (names ! idx) (errorMessage e) = je @ [(names ! idx, errorMessage e)]"
      using fresh Cons.prems(3) by (intro obj_set_fresh) auto
    have "aggregate names rs (Suc idx) (gc, je @ [(names ! idx, errorMessage e)]) =
      (gc @ fulfilled_entries (zip (drop (Suc idx) names) rs),
       (je @ [(names ! idx, errorMessage e)]) @ rejected_entries (zip (drop (Suc idx) names) rs))"
      using Cons.prems by (intro Cons.IH) (auto simp: tk obj_keys_def)
    then show ?thesis
      using lt by (simp add: Rejected name_at_def g dr)
  qed
qed

lemma settle_and_collect_entries:
  assumes "distinct names" and "length jobs = length names"
  shows "settle_and_collect names jobs =
     (fulfilled_entries (zip names (allSettled jobs)),
      rejected_entries (zip names (allSettled jobs)))"
proof -
  have "aggregate names (allSettled jobs) 0 ([], []) =
     ([] @ fulfilled_entries (zip (drop 0 names) (allSettled jobs)),
      [] @ rejected_entries (zip (drop 0 names) (allSettled jobs)))"
    using assms by (intro aggregate_entries) (simp_all add: allSettled_def obj_keys_def)
  then show ?thesis by (simp add: settle_and_collect_def)
qed

lemma distinct_selectJobs: "distinct (selectJobs plan)"
  by (simp add: selectJobs_def Let_def)

lemma length_launch_jobs: "length (fst (launch_jobs env plan t)) = length (selectJobs plan)"
  by (simp add: launch_jobs_def selectJobs_def Let_def)

lemma fan_out_entries:
  "fan_out env plan t =
     (fulfilled_entries (zip (selectJobs plan) (allSettled (fst (launch_jobs env plan t)))),
      rejected_entries (zip (selectJobs plan) (allSettled (fst (launch_jobs env plan t)))))"
proof -
  obtain jobs names where lj: "launch_jobs env plan t = (jobs, names)"
    by (cases "launch_jobs env plan t")
  have n: "names = selectJobs plan" using selectJobs_launch[of env plan t] lj by simp
  have l: "length jobs = length names" using length_launch_jobs[of env plan t] lj n by simp
  show ?thesis
    using settle_and_collect_entries[OF _ l] distinct_selectJobs[of plan]
    by (simp add: fan_out_def lj n)
qed

lemma entries_keys:
  "distinct (map fst xs) \<Longrightarrow>
     set (obj_keys (fulfilled_entries xs)) \<union> set (obj_keys (rejected_entries xs)) = set (map fst xs)
   \<and> set (obj_keys (fulfilled_entries xs)) \<inter> set (obj_keys (rejected_entries xs)) = {}
   \<and> distinct (obj_keys (fulfilled_entries xs))
   \<and> distinct (obj_keys (rejected_entries xs))"
  by (induction xs rule: fulfilled_entries.induct) (auto simp: obj_keys_def)

text \<open>
  C3. Whatever the plan string and the outcomes of the jobs, the keys of
  generatedContent and the keys of jobErrors after the aggregation are disjoint, without
  repetition, and together are exactly the job names selected for the plan.
\<close>

theorem fan_out_partitions_jobs:
  "set (obj_keys (fst (fan_out env plan t))) \<union> set (obj_keys (snd (fan_out env plan t)))
     = set (selectJobs plan)
   \<and> set (obj_keys (fst (fan_out env plan t))) \<inter> set (obj_keys (snd (fan_out env plan t))) = {}
   \<and> distinct (obj_keys (fst (fan_out env plan t)))
   \<and> distinct (obj_keys (snd (fan_out env plan t)))"
proof -
  let ?xs = "zip (selectJobs plan) (allSettled (fst (launch_jobs env plan t)))"
  have len: "length (allSettled (fst (launch_jobs env plan t))) = length (selectJobs plan)"
    by (simp add: allSettled_def length_launch_jobs)
  have names: "map fst ?xs = selectJobs plan"
    using len by simp
  have "distinct (map fst ?xs)"
    using distinct_selectJobs[of plan] names by simp
  from entries_keys[OF this] show ?thesis
    by (simp add: fan_out_entries names)
qed

section \<open>Runs of the workflow\<close>

lemma generation_phase_ok:
  assumes mut: "\<forall>req. \<not> is_RecordError req \<longrightarrow> convex_mutation env req = None"
    and save: "\<forall>content. saveResultsToConvex env pid content = None"
  shows "generation_phase env pid plan t tr0 =
     (Inr \<lparr>res_success = True, res_projectId = pid, res_plan = plan\<rparr>,
      tr0 @ map Launch (selectJobs plan)
        @ (if snd (fan_out env plan t) = [] then []
           else [Mutation (SaveJobErrors pid (snd (fan_out env plan t)))])
        @ [Mutation (UpdateJobStatus pid [(''contentGeneration'', ''completed'')]),
           SaveResults pid (fst (fan_out env plan t))])"
proof -
  obtain jobs names where lj: "launch_jobs env plan t = (jobs, names)"
    by (cases "launch_jobs env plan t")
  obtain gc je where sc: "settle_and_collect names jobs = (gc, je)"
    by (cases "settle_and_collect names jobs")
  have n: "names = selectJobs plan" using selectJobs_launch[of env plan t] lj by simp
  have fo: "fan_out env plan t = (gc, je)" by (simp add: fan_out_def lj sc)
  have m1: "convex_mutation env (SaveJobErrors pid je) = None" using mut by simp
  have m2: "convex_mutation env (UpdateJobStatus pid [(''contentGeneration'', ''completed'')]) = None"
    using mut by simp
  show ?thesis
    by (simp add: generation_phase_def lj sc[unfolded n] fo n and_then_def step_mutation_def
        step_save_results_def obj_keys_def m1 m2 save Let_def)
qed

lemma workflow_try_ok:
  assumes mut: "\<forall>req. \<not> is_RecordError req \<longrightarrow> convex_mutation env req = None"
    and tr: "transcribeWithAssemblyAI env url pid plan = Inr t"
    and save: "\<forall>content. saveResultsToConvex env pid content = None"
  shows "workflow_try env pid url plan =
     (Inr \<lparr>res_success = True, res_projectId = pid, res_plan = plan\<rparr>,
      [Mutation (UpdateProjectStatus pid ''processing''),
       Mutation (UpdateJobStatus pid [(''transcription'', ''running'')]),
       Transcribe url pid plan,
       Mutation (UpdateJobStatus pid [(''transcription'', ''completed'')]),
       Mutation (UpdateJobStatus pid [(''contentGeneration'', ''running'')])]
        @ map Launch (selectJobs plan)
        @ (if snd (fan_out env plan t) = [] then []
           else [Mutation (SaveJobErrors pid (snd (fan_out env plan t)))])
        @ [Mutation (UpdateJobStatus pid [(''contentGeneration'', ''completed'')]),
           SaveResults pid (fst (fan_out env plan t))])"
proof -
  have m: "\<And>req. \<not> is_RecordError req \<Longrightarrow> convex_mutation env req = None"
    using mut by blast
  show ?thesis
    by (simp add: workflow_try_def and_then_def step_mutation_def step_transcribe_def m tr
        generation_phase_ok[OF mut save])
qed

lemma run_ok:
  assumes mut: "\<forall>req. \<not> is_RecordError req \<longrightarrow> convex_mutation env req = None"
    and tr: "transcribeWithAssemblyAI env (ev_fileUrl ev) (ev_projectId ev)
               (effective_plan (ev_plan ev)) = Inr t"
    and save: "\<forall>content. saveResultsToConvex env (ev_projectId ev) content = None"
  shows "podcastProcessor env ev =
     workflow_try env (ev_projectId ev) (ev_fileUrl ev) (effective_plan (ev_plan ev))"
  by (simp add: podcastProcessor_def Let_def workflow_try_ok[OF mut tr save])

lemma generation_phase_result:
  "generation_phase env pid plan t tr0 = (Inr r, tr) \<Longrightarrow>
     r = \<lparr>res_success = True, res_projectId = pid, res_plan = plan\<rparr>"
  by (auto simp: generation_phase_def and_then_def step_mutation_def step_save_results_def
      Let_def split: prod.splits sum.splits option.splits if_splits)

lemma workflow_try_result:
  "workflow_try env pid url plan = (Inr r, tr) \<Longrightarrow>
     r = \<lparr>res_success = True, res_projectId = pid, res_plan = plan\<rparr>"
  by (auto simp: workflow_try_def and_then_def step_mutation_def step_transcribe_def
      split: prod.splits sum.splits option.splits dest: generation_phase_result)

lemma generation_phase_no_record:
  "\<not> list_ex is_error_record tr0 \<Longrightarrow>
     \<not> list_ex is_error_record (snd (generation_phase env pid plan t tr0))"
  by (auto simp: generation_phase_def and_then_def step_mutation_def step_save_results_def
      Let_def list_ex_iff split: prod.splits sum.splits option.splits if_splits)

lemma workflow_try_no_record:
  "\<not> list_ex is_error_record (snd (workflow_try env pid url plan))"
  by (auto simp: workflow_try_def and_then_def step_mutation_def step_transcribe_def
      generation_phase_no_record split: prod.splits sum.splits option.splits)

text \<open>
  C1. Let every mutation of the spine, the transcription and the saving of the results
  succeed. Then, for every plan and every outcome of every generation job, the run
  goes on past the join: it records the job errors when there are any, sets
  contentGeneration to completed, saves generatedContent and returns success. The
  fulfilled jobs are the entries of generatedContent, the rejected jobs those of
  jobErrors, with their messages.
\<close>

theorem generation_never_aborts:
  assumes mut: "\<forall>req. \<not> is_RecordError req \<longrightarrow> convex_mutation env req = None"
    and tr: "transcribeWithAssemblyAI env (ev_fileUrl ev) (ev_projectId ev)
               (effective_plan (ev_plan ev)) = Inr t"
    and save: "\<forall>content. saveResultsToConvex env (ev_projectId ev) content = None"
  shows
    "(let projectId = ev_projectId ev;
          plan = effective_plan (ev_plan ev);
          outcomes = zip (selectJobs plan) (allSettled (fst (launch_jobs env plan t)));
          generatedContent = fulfilled_entries outcomes;
          jobErrors = rejected_entries outcomes
      in fan_out env plan t = (generatedContent, jobErrors)
       \<and> podcastProcessor env ev =
          (Inr \<lparr>res_success = True, res_projectId = projectId, res_plan = plan\<rparr>,
           [Mutation (UpdateProjectStatus projectId ''processing''),
            Mutation (UpdateJobStatus projectId [(''transcription'', ''running'')]),
            Transcribe (ev_fileUrl ev) projectId plan,
            Mutation (UpdateJobStatus projectId [(''transcription'', ''completed'')]),
            Mutation (UpdateJobStatus projectId [(''contentGeneration'', ''running'')])]
           @ map Launch (selectJobs plan)
           @ (if jobErrors = [] then [] else [Mutation (SaveJobErrors projectId jobErrors)])
           @ [Mutation (UpdateJobStatus projectId [(''contentGeneration'', ''completed'')]),
              SaveResults projectId generatedContent]))"
  unfolding Let_def run_ok[OF mut tr save] workflow_try_ok[OF mut tr save]
  by (simp add: fan_out_entries)

text \<open>
  The run of a pro project whose titles job is rejected: three of the four jobs are
  saved, the error record holds titles, and the run returns success.
\<close>

theorem generation_never_aborts_witness:
  "podcastProcessor env_titles_fail (event_of (Some ''pro'')) =
     (Inr \<lparr>res_success = True, res_projectId = ''p1'', res_plan = ''pro''\<rparr>,
      [Mutation (UpdateProjectStatus ''p1'' ''processing''),
       Mutation (UpdateJobStatus ''p1'' [(''transcription'', ''running'')]),
       Transcribe ''blob://a.mp3'' ''p1'' ''pro'',
       Mutation (UpdateJobStatus ''p1'' [(''transcription'', ''completed'')]),
       Mutation (UpdateJobStatus ''p1'' [(''contentGeneration'', ''running'')]),
       Launch ''summary'', Launch ''socialPosts'', Launch ''titles'', Launch ''hashtags'',
       Mutation (SaveJobErrors ''p1'' [(''titles'', ''rate limited'')]),
       Mutation (UpdateJobStatus ''p1'' [(''contentGeneration'', ''completed'')]),
       SaveResults ''p1'' [(''summary'', 1), (''socialPosts'', 2), (''hashtags'', 4)]])"
proof -
  have mut: "\<forall>req. \<not> is_RecordError req \<longrightarrow> convex_mutation env_titles_fail req = None"
    by (simp add: env_titles_fail_def env_ok_def)
  have tr: "transcribeWithAssemblyAI env_titles_fail (ev_fileUrl (event_of (Some ''pro'')))
              (ev_projectId (event_of (Some ''pro'')))
              (effective_plan (ev_plan (event_of (Some ''pro'')))) = Inr 7"
    by (simp add: env_titles_fail_def env_ok_def)
  have save: "\<forall>content. saveResultsToConvex env_titles_fail
                (ev_projectId (event_of (Some ''pro''))) content = None"
    by (simp add: env_titles_fail_def env_ok_def)
  have jobs: "fst (launch_jobs env_titles_fail ''pro'' 7) =
      [Inr 1, Inr 2, Inl (plain_error ''rate limited''), Inr 4]"
    by (simp add: launch_jobs_def env_titles_fail_def env_ok_def)
  have names: "selectJobs ''pro'' = [''summary'', ''socialPosts'', ''titles'', ''hashtags'']"
    by (simp add: selectJobs_def)
  show ?thesis
    using generation_never_aborts[OF mut tr save]
    by (simp add: Let_def event_of_def effective_plan_def jobs names allSettled_def settle_def
        errorMessage_def plain_error_def)
qed

text \<open>
  C5. When the first two status mutations succeed and the transcription step throws
  \<open>e\<close>, the run ends by throwing \<open>e\<close> after exactly four events: the two
  mutations, the transcription and one recording of the error with step label
  workflow. No generation job is launched and no mutation touches contentGeneration.
\<close>

theorem transcription_failure_aborts:
  assumes m1: "convex_mutation env (UpdateProjectStatus (ev_projectId ev) ''processing'') = None"
    and m2: "convex_mutation env
               (UpdateJobStatus (ev_projectId ev) [(''transcription'', ''running'')]) = None"
    and tf: "transcribeWithAssemblyAI env (ev_fileUrl ev) (ev_projectId ev)
               (effective_plan (ev_plan ev)) = Inl e"
  shows
    "(let projectId = ev_projectId ev;
          trace = snd (podcastProcessor env ev)
      in podcastProcessor env ev =
          (Inl e,
           [Mutation (UpdateProjectStatus projectId ''processing''),
            Mutation (UpdateJobStatus projectId [(''transcription'', ''running'')]),
            Transcribe (ev_fileUrl ev) projectId (effective_plan (ev_plan ev)),
            Mutation (RecordError projectId
               (if is_Error e then err_message e else ''Unknown error occurred'')
               ''workflow''
               (case thr_statusCode e of Some n \<Rightarrow> Some n | None \<Rightarrow> thr_status e)
               (if is_Error e then err_stack e else Some (as_String e)))])
       \<and> filter is_Launch trace = []
       \<and> filter sets_contentGeneration trace = []
       \<and> length (filter is_error_record trace) = 1)"
proof -
  have wt: "workflow_try env (ev_projectId ev) (ev_fileUrl ev) (effective_plan (ev_plan ev)) =
     (Inl e,
      [Mutation (UpdateProjectStatus (ev_projectId ev) ''processing''),
       Mutation (UpdateJobStatus (ev_projectId ev) [(''transcription'', ''running'')]),
       Transcribe (ev_fileUrl ev) (ev_projectId ev) (effective_plan (ev_plan ev))])"
    by (simp add: workflow_try_def and_then_def step_mutation_def step_transcribe_def m1 m2 tf)
  have sc: "(case thr_statusCode e of Some n \<Rightarrow> Some n
             | None \<Rightarrow> (case thr_status e of Some n \<Rightarrow> Some n | None \<Rightarrow> None))
            = (case thr_statusCode e of Some n \<Rightarrow> Some n | None \<Rightarrow> thr_status e)"
    by (simp split: option.splits)
  show ?thesis
    by (simp add: podcastProcessor_def Let_def wt step_mutation_def error_record_def sc
        obj_keys_def split: option.splits)
qed

text \<open>An ultra project whose transcription fails, the recording of the error failing too.\<close>

theorem transcription_failure_aborts_witness:
  "podcastProcessor env_transcribe_fail (event_of (Some ''ultra'')) =
     (Inl (plain_error ''transcription failed''),
      [Mutation (UpdateProjectStatus ''p1'' ''processing''),
       Mutation (UpdateJobStatus ''p1'' [(''transcription'', ''running'')]),
       Transcribe ''blob://a.mp3'' ''p1'' ''ultra'',
       Mutation (RecordError ''p1'' ''transcription failed'' ''workflow'' None
                  (Some ''Error: at job''))])"
proof -
  have m1: "convex_mutation env_transcribe_fail
              (UpdateProjectStatus (ev_projectId (event_of (Some ''ultra''))) ''processing'') = None"
    by (simp add: env_transcribe_fail_def env_ok_def)
  have m2: "convex_mutation env_transcribe_fail
              (UpdateJobStatus (ev_projectId (event_of (Some ''ultra'')))
                 [(''transcription'', ''running'')]) = None"
    by (simp add: env_transcribe_fail_def env_ok_def)
  have tf: "transcribeWithAssemblyAI env_transcribe_fail (ev_fileUrl (event_of (Some ''ultra'')))
              (ev_projectId (event_of (Some ''ultra'')))
              (effective_plan (ev_plan (event_of (Some ''ultra''))))
            = Inl (plain_error ''transcription failed'')"
    by (simp add: env_transcribe_fail_def env_ok_def)
  show ?thesis
    using transcription_failure_aborts[OF m1 m2 tf]
    by (simp add: Let_def event_of_def effective_plan_def plain_error_def)
qed

text \<open>
  C6. Whenever the body of the \<open>try\<close> throws \<open>e\<close>, the handler sends one
  recording mutation, the only one of the run, with step label workflow, and throws
  \<open>e\<close> itself, whatever the recording mutation does.
\<close>

theorem handler_rethrows_original:
  assumes body: "workflow_try env (ev_projectId ev) (ev_fileUrl ev)
                   (effective_plan (ev_plan ev)) = (Inl e, tr)"
  shows "podcastProcessor env ev = (Inl e, tr @ [Mutation (error_record (ev_projectId ev) e)])
       \<and> length (filter is_error_record (snd (podcastProcessor env ev))) = 1
       \<and> error_record (ev_projectId ev) e =
           RecordError (ev_projectId ev)
             (if is_Error e then err_message e else ''Unknown error occurred'')
             ''workflow''
             (case thr_statusCode e of Some n \<Rightarrow> Some n | None \<Rightarrow> thr_status e)
             (if is_Error e then err_stack e else Some (as_String e))"
proof -
  have run: "podcastProcessor env ev =
      (Inl e, tr @ [Mutation (error_record (ev_projectId ev) e)])"
    by (simp add: podcastProcessor_def Let_def body step_mutation_def split: option.splits)
  have "\<not> list_ex is_error_record tr"
    using workflow_try_no_record[of env "ev_projectId ev" "ev_fileUrl ev"
        "effective_plan (ev_plan ev)"] body by simp
  then have none: "filter is_error_record tr = []"
    by (simp add: list_ex_iff filter_empty_conv)
  have rec: "is_error_record (Mutation (error_record (ev_projectId ev) e) :: 'b event)"
    by (simp add: error_record_def Let_def)
  have one: "length (filter is_error_record (snd (podcastProcessor env ev))) = 1"
    using rec by (simp add: run none)
  have shape: "error_record (ev_projectId ev) e =
           RecordError (ev_projectId ev)
             (if is_Error e then err_message e else ''Unknown error occurred'')
             ''workflow''
             (case thr_statusCode e of Some n \<Rightarrow> Some n | None \<Rightarrow> thr_status e)
             (if is_Error e then err_stack e else Some (as_String e))"
    by (simp add: error_record_def Let_def split: option.splits)
  from run one shape show ?thesis by blast
qed

text \<open>
  Saving the results throws and the recording mutation throws as well: the error of the
  save is the one raised.
\<close>

theorem handler_rethrows_original_witness:
  "convex_mutation env_save_fail
      (RecordError ''p1'' ''Unknown error occurred'' ''workflow'' (Some 503)
         (Some ''[object Object]'')) = Some (plain_error ''store down'')
   \<and> podcastProcessor env_save_fail (event_of None) =
     (Inl service_unavailable,
      [Mutation (UpdateProjectStatus ''p1'' ''processing''),
       Mutation (UpdateJobStatus ''p1'' [(''transcription'', ''running'')]),
       Transcribe ''blob://a.mp3'' ''p1'' ''free'',
       Mutation (UpdateJobStatus ''p1'' [(''transcription'', ''completed'')]),
       Mutation (UpdateJobStatus ''p1'' [(''contentGeneration'', ''running'')]),
       Launch ''summary'',
       Mutation (UpdateJobStatus ''p1'' [(''contentGeneration'', ''completed'')]),
       SaveResults ''p1'' [(''summary'', 1)],
       Mutation (RecordError ''p1'' ''Unknown error occurred'' ''workflow'' (Some 503)
                  (Some ''[object Object]''))])"
proof -
  have body: "workflow_try env_save_fail (ev_projectId (event_of None)) (ev_fileUrl (event_of None))
                (effective_plan (ev_plan (event_of None))) =
     (Inl service_unavailable,
      [Mutation (UpdateProjectStatus ''p1'' ''processing''),
       Mutation (UpdateJobStatus ''p1'' [(''transcription'', ''running'')]),
       Transcribe ''blob://a.mp3'' ''p1'' ''free'',
       Mutation (UpdateJobStatus ''p1'' [(''transcription'', ''completed'')]),
       Mutation (UpdateJobStatus ''p1'' [(''contentGeneration'', ''running'')]),
       Launch ''summary'',
       Mutation (UpdateJobStatus ''p1'' [(''contentGeneration'', ''completed'')]),
       SaveResults ''p1'' [(''summary'', 1)]])"
    by (simp add: workflow_try_def generation_phase_def launch_jobs_def settle_and_collect_def
        allSettled_def settle_def name_at_def obj_keys_def and_then_def step_mutation_def
        step_transcribe_def step_save_results_def env_save_fail_def env_ok_def event_of_def
        effective_plan_def Let_def)
  have rec: "convex_mutation env_save_fail
      (RecordError ''p1'' ''Unknown error occurred'' ''workflow'' (Some 503)
         (Some ''[object Object]'')) = Some (plain_error ''store down'')"
    by (simp add: env_save_fail_def env_ok_def)
  show ?thesis
    using handler_rethrows_original[OF body] rec
    by (simp add: event_of_def service_unavailable_def)
qed

text \<open>
  C9. For a plan value that is neither pro nor ultra (unrecognised, absent or empty
  included), a run whose spine succeeds returns normally and launches the summary job
  alone, which is the selection of the free plan.
\<close>

theorem unknown_plan_runs_free_jobs:
  assumes unknown: "ev_plan ev \<noteq> Some ''pro''" "ev_plan ev \<noteq> Some ''ultra''"
    and mut: "\<forall>req. \<not> is_RecordError req \<longrightarrow> convex_mutation env req = None"
    and tr: "transcribeWithAssemblyAI env (ev_fileUrl ev) (ev_projectId ev)
               (effective_plan (ev_plan ev)) = Inr t"
    and save: "\<forall>content. saveResultsToConvex env (ev_projectId ev) content = None"
  shows "fst (podcastProcessor env ev) =
           Inr \<lparr>res_success = True, res_projectId = ev_projectId ev,
                res_plan = effective_plan (ev_plan ev)\<rparr>
       \<and> filter is_Launch (snd (podcastProcessor env ev)) = [Launch ''summary'']
       \<and> selectJobs (effective_plan (ev_plan ev)) = selectJobs ''free''"
proof -
  have p: "effective_plan (ev_plan ev) \<noteq> ''pro''" "effective_plan (ev_plan ev) \<noteq> ''ultra''"
    using unknown by (auto simp: effective_plan_def split: option.splits if_splits)
  have sel: "selectJobs (effective_plan (ev_plan ev)) = [''summary'']"
    using p by (simp add: selectJobs_def)
  have free: "selectJobs ''free'' = [''summary'']"
    by (simp add: selectJobs_def)
  show ?thesis
    unfolding run_ok[OF mut tr save] workflow_try_ok[OF mut tr save]
    by (simp add: sel free)
qed

text \<open>The plan value enterprise.\<close>

theorem unknown_plan_runs_free_jobs_witness:
  "fst (podcastProcessor env_ok (event_of (Some ''enterprise''))) =
     Inr \<lparr>res_success = True, res_projectId = ''p1'', res_plan = ''enterprise''\<rparr>
   \<and> filter is_Launch (snd (podcastProcessor env_ok (event_of (Some ''enterprise''))))
       = [Launch ''summary'']"
proof -
  have u: "ev_plan (event_of (Some ''enterprise'')) \<noteq> Some ''pro''"
      "ev_plan (event_of (Some ''enterprise'')) \<noteq> Some ''ultra''"
    by (simp_all add: event_of_def)
  have mut: "\<forall>req. \<not> is_RecordError req \<longrightarrow> convex_mutation env_ok req = None"
    by (simp add: env_ok_def)
  have tr: "transcribeWithAssemblyAI env_ok (ev_fileUrl (event_of (Some ''enterprise'')))
              (ev_projectId (event_of (Some ''enterprise'')))
              (effective_plan (ev_plan (event_of (Some ''enterprise'')))) = Inr 7"
    by (simp add: env_ok_def)
  have save: "\<forall>content. saveResultsToConvex env_ok
                (ev_projectId (event_of (Some ''enterprise''))) content = None"
    by (simp add: env_ok_def)
  show ?thesis
    using unknown_plan_runs_free_jobs[OF u mut tr save]
    by (simp add: event_of_def effective_plan_def)
qed

text \<open>
  C10. A run that returns returns success, the project of the event, and as plan the
  string of the event when there is one and it is not empty, the word free otherwise;
  a string outside free, pro and ultra comes back as it is.
\<close>

theorem result_echoes_plan:
  assumes ok: "fst (podcastProcessor env ev) = Inr r"
  shows "r = \<lparr>res_success = True, res_projectId = ev_projectId ev,
              res_plan = (case ev_plan ev of
                            None \<Rightarrow> ''free''
                          | Some s \<Rightarrow> if s = [] then ''free'' else s)\<rparr>"
proof -
  obtain res tr where wt: "workflow_try env (ev_projectId ev) (ev_fileUrl ev)
      (effective_plan (ev_plan ev)) = (res, tr)"
    by (cases "workflow_try env (ev_projectId ev) (ev_fileUrl ev) (effective_plan (ev_plan ev))")
  have "res = Inr r"
    using ok wt
    by (cases res) (auto simp: podcastProcessor_def Let_def split: prod.splits)
  with wt have "r = \<lparr>res_success = True, res_projectId = ev_projectId ev,
      res_plan = effective_plan (ev_plan ev)\<rparr>"
    by (auto dest: workflow_try_result)
  then show ?thesis by (simp add: effective_plan_def)
qed

text \<open>The plan value platinum comes back unchanged.\<close>

theorem result_echoes_plan_witness:
  "fst (podcastProcessor env_ok (event_of (Some ''platinum''))) =
     Inr \<lparr>res_success = True, res_projectId = ''p1'', res_plan = ''platinum''\<rparr>"
proof -
  have mut: "\<forall>req. \<not> is_RecordError req \<longrightarrow> convex_mutation env_ok req = None"
    by (simp add: env_ok_def)
  have tr: "transcribeWithAssemblyAI env_ok (ev_fileUrl (event_of (Some ''platinum'')))
              (ev_projectId (event_of (Some ''platinum'')))
              (effective_plan (ev_plan (event_of (Some ''platinum'')))) = Inr 7"
    by (simp add: env_ok_def)
  have save: "\<forall>content. saveResultsToConvex env_ok
                (ev_projectId (event_of (Some ''platinum''))) content = None"
    by (simp add: env_ok_def)
  obtain r where r: "fst (podcastProcessor env_ok (event_of (Some ''platinum''))) = Inr r"
    unfolding run_ok[OF mut tr save] workflow_try_ok[OF mut tr save] by simp
  from result_echoes_plan[OF r] r show ?thesis
    by (simp add: event_of_def)
qed

section \<open>The join\<close>

lemma schedule_length:
  assumes "distinct schedule" and "set schedule \<subseteq> {..<n}"
  shows "length schedule \<le> n"
proof -
  have "card (set schedule) \<le> card {..<n}"
    using assms(2) by (intro card_mono) simp_all
  then show ?thesis using assms(1) by (simp add: distinct_card)
qed

lemma slots_after_snoc:
  "i < length jobs \<Longrightarrow>
   (slots_after jobs schedule)[i := Some (settle (jobs ! i))] = slots_after jobs (schedule @ [i])"
  unfolding slots_after_def
  by (rule nth_equalityI) (auto simp: nth_list_update)

lemma join_run_state:
  assumes "distinct schedule" and "set schedule \<subseteq> {..<length jobs}"
  shows "join_run jobs schedule =
     \<lparr>join_values = slots_after jobs schedule,
      join_remaining = length jobs - length schedule,
      join_resolved = (if length schedule = length jobs
                       then Some (slots_after jobs schedule) else None)\<rparr>"
  using assms
proof (induction schedule rule: rev_induct)
  case Nil
  then show ?case
    by (auto simp: join_run_def join_start_def slots_after_def map_replicate_const)
next
  case (snoc i schedule)
  then have d: "distinct schedule" and s: "set schedule \<subseteq> {..<length jobs}"
    and i: "i < length jobs" and fresh: "i \<notin> set schedule"
    by auto
  have le: "length (schedule @ [i]) \<le> length jobs"
    using snoc.prems by (rule schedule_length)
  have st: "join_run jobs schedule =
     \<lparr>join_values = slots_after jobs schedule,
      join_remaining = length jobs - length schedule,
      join_resolved = (if length schedule = length jobs
                       then Some (slots_after jobs schedule) else None)\<rparr>"
    using snoc.IH[OF d s] .
  have step: "join_run jobs (schedule @ [i]) = join_settle jobs (join_run jobs schedule) i"
    by (simp add: join_run_def)
  have rem: "length jobs - length schedule - 1 = length jobs - length (schedule @ [i])"
    by simp
  have zero: "(length jobs - length (schedule @ [i]) = 0) = (length (schedule @ [i]) = length jobs)"
    using le by linarith
  have pending: "length schedule \<noteq> length jobs"
    using le by simp
  show ?case
    unfolding step st join_settle_def Let_def
    by (simp only: join_state.simps slots_after_snoc[OF i] rem zero pending if_False)
qed

lemma slots_after_all:
  "set schedule = {..<length jobs} \<Longrightarrow> slots_after jobs schedule = map Some (allSettled jobs)"
  unfolding slots_after_def allSettled_def
  by (rule nth_equalityI) auto

text \<open>
  C2. For \<open>N\<close> submitted jobs with any outcomes, settling in any order, each exactly
  once: the array of the join has \<open>N\<close> outcomes, the one at index \<open>i\<close> is the outcome
  of the job submitted at index \<open>i\<close>, the join is fulfilled with exactly this array
  when the last job has settled, and it is still pending after every shorter prefix of
  the schedule, whatever the jobs settled so far did.
\<close>

theorem join_waits_for_all:
  assumes d: "distinct schedule" and s: "set schedule = {..<length jobs}"
  shows "length (allSettled jobs) = length jobs
       \<and> (\<forall>i. i < length jobs \<longrightarrow> allSettled jobs ! i = settle (jobs ! i))
       \<and> join_resolved (join_run jobs schedule) = Some (map Some (allSettled jobs))
       \<and> (\<forall>k. k < length schedule \<longrightarrow> join_resolved (join_run jobs (take k schedule)) = None)"
proof -
  have len: "length schedule = length jobs"
    using d s by (metis card_lessThan distinct_card)
  have sub: "set schedule \<subseteq> {..<length jobs}" using s by simp
  have fin: "join_resolved (join_run jobs schedule) = Some (map Some (allSettled jobs))"
    by (simp add: join_run_state[OF d sub] len slots_after_all[OF s])
  have pre: "join_resolved (join_run jobs (take k schedule)) = None" if k: "k < length schedule" for k
  proof -
    have dk: "distinct (take k schedule)" using d by simp
    have sk: "set (take k schedule) \<subseteq> {..<length jobs}"
      using sub set_take_subset[of k schedule] by blast
    show ?thesis
      using k len by (simp add: join_run_state[OF dk sk])
  qed
  show ?thesis
    using fin pre by (simp add: allSettled_def)
qed

text \<open>
  Three jobs of which the first is rejected at once and the third settles before the
  second.
\<close>

theorem join_waits_for_all_witness:
  "join_resolved (join_run [Inl (plain_error ''boom''), Inr (1::nat), Inr 2] [0, 2, 1]) =
     Some [Some (Rejected (plain_error ''boom'')), Some (Fulfilled 1), Some (Fulfilled 2)]
   \<and> join_resolved (join_run [Inl (plain_error ''boom''), Inr (1::nat), Inr 2] [0]) = None
   \<and> join_resolved (join_run [Inl (plain_error ''boom''), Inr (1::nat), Inr 2] [0, 2]) = None
   \<and> allSettled [Inl (plain_error ''boom''), Inr (1::nat), Inr 2] =
       [Rejected (plain_error ''boom''), Fulfilled 1, Fulfilled 2]"
proof -
  let ?jobs = "[Inl (plain_error ''boom''), Inr (1::nat), Inr 2]"
  have d: "distinct [0::nat, 2, 1]" by simp
  have s: "set [0::nat, 2, 1] = {..<length ?jobs}" by auto
  have a: "allSettled ?jobs = [Rejected (plain_error ''boom''), Fulfilled 1, Fulfilled 2]"
    by (simp add: allSettled_def settle_def)
  from join_waits_for_all[OF d s] have
    fin: "join_resolved (join_run ?jobs [0, 2, 1]) = Some (map Some (allSettled ?jobs))"
    and pre: "\<And>k. k < 3 \<Longrightarrow> join_resolved (join_run ?jobs (take k [0, 2, 1])) = None"
    by simp_all
  from pre[of 1] pre[of 2] fin a show ?thesis by (simp add: numeral_2_eq_2)
qed

section \<open>The progress estimator\<close>

lemma totalSteps_six: "totalSteps props = 6"
  by (simp add: totalSteps_def stepStatuses_def)

lemma completedSteps_le: "completedSteps props \<le> 6"
proof -
  have "completedSteps props \<le> length (stepStatuses props)"
    unfolding completedSteps_def by (rule length_filter_le)
  then show ?thesis by (simp add: stepStatuses_def)
qed

lemma not_both: "isTranscribed props \<Longrightarrow> \<not> isTranscribing props"
  by (simp add: isTranscribed_def isTranscribing_def)

text \<open>
  C7, as the code has it. The effect always tracks six generation steps. When
  transcription is completed and nothing has failed, it sets
  50 + (completed / 6) * 50 with the generating text while fewer than six steps are
  completed, and 100 with the complete text once all six are.
\<close>

theorem generation_progress:
  assumes t: "isTranscribed props" and nf: "\<not> anyFailed props"
  shows "totalSteps props = 6
       \<and> (if completedSteps props = totalSteps props
          then progress_effect cap conservative props now p = 100
             \<and> statusText props = TextComplete
          else progress_effect cap conservative props now p =
                 50 + (real (completedSteps props) / real (totalSteps props)) * 50
             \<and> statusText props = TextGenerating)"
  using t nf not_both[OF t]
  by (simp add: progress_effect_def statusText_def isGenerated_def totalSteps_six)

text \<open>Three of the six steps completed give 75.\<close>

theorem generation_progress_witness:
  "progress_effect 95 conservative_100 three_of_six 0 0 = 75
   \<and> statusText three_of_six = TextGenerating
   \<and> completedSteps three_of_six = 3 \<and> totalSteps three_of_six = 6"
proof -
  have c: "completedSteps three_of_six = 3"
    by (simp add: completedSteps_def stepStatuses_def three_of_six_def status_of_def
        read_field_def normalized_def isJobState_def)
  have t: "isTranscribed three_of_six"
    by (simp add: isTranscribed_def transcriptionStatus_def three_of_six_def status_of_def
        read_field_def normalized_def isJobState_def)
  have nf: "\<not> anyFailed three_of_six"
    by (simp add: anyFailed_def transcriptionStatus_def contentGenerationStatus_def
        stepStatuses_def three_of_six_def status_of_def read_field_def normalized_def
        isJobState_def)
  from generation_progress[OF t nf, of 95 conservative_100 0 0] show ?thesis
    by (simp add: c)
qed

text \<open>
  A pro project has four generation jobs. With two of them completed the effect still
  counts six steps and sets 200 / 3, not 75.
\<close>

theorem two_of_four_counterexample:
  "isTranscribed pro_half_done \<and> \<not> anyFailed pro_half_done
   \<and> completedSteps pro_half_done = 2 \<and> totalSteps pro_half_done = 6
   \<and> progress_effect 95 conservative_100 pro_half_done 0 0 = 200 / 3
   \<and> progress_effect 95 conservative_100 pro_half_done 0 0 \<noteq> 75"
proof -
  have c: "completedSteps pro_half_done = 2"
    by (simp add: completedSteps_def stepStatuses_def pro_half_done_def status_of_def
        read_field_def normalized_def isJobState_def)
  have t: "isTranscribed pro_half_done"
    by (simp add: isTranscribed_def transcriptionStatus_def pro_half_done_def status_of_def
        read_field_def normalized_def isJobState_def)
  have nf: "\<not> anyFailed pro_half_done"
    by (simp add: anyFailed_def transcriptionStatus_def contentGenerationStatus_def
        stepStatuses_def pro_half_done_def status_of_def read_field_def normalized_def
        isJobState_def)
  have p: "progress_effect 95 conservative_100 pro_half_done 0 0 = 200 / 3"
    using t nf not_both[OF t]
    by (simp add: progress_effect_def isGenerated_def totalSteps_six c)
  show ?thesis using c t nf p by (simp add: totalSteps_six)
qed

lemma phase1_mono:
  assumes "0 < cap" and "0 < est" and "now_a \<le> now_b"
  shows "phase1 cap est created now_a \<le> phase1 cap est created now_b"
proof -
  have "(now_a - created) div 1000 \<le> (now_b - created) div 1000"
    using assms(3) by (intro zdiv_mono1) simp_all
  then have "real_of_int ((now_a - created) div 1000) \<le> real_of_int ((now_b - created) div 1000)"
    by simp
  then have "real_of_int ((now_a - created) div 1000) / est * 100
      \<le> real_of_int ((now_b - created) div 1000) / est * 100"
    using assms(2) by (simp add: divide_right_mono)
  then have "min cap (real_of_int ((now_a - created) div 1000) / est * 100)
      \<le> min cap (real_of_int ((now_b - created) div 1000) / est * 100)"
    by simp
  then have "min cap (real_of_int ((now_a - created) div 1000) / est * 100) / cap * 50
      \<le> min cap (real_of_int ((now_b - created) div 1000) / est * 100) / cap * 50"
    using assms(1) by (simp add: divide_right_mono)
  then show ?thesis
    unfolding phase1_def by simp
qed

lemma phase1_le: "phase1 cap est created now \<le> 50"
  by (simp add: phase1_def)

lemma progress_transcribing:
  "\<not> anyFailed props \<Longrightarrow> isTranscribing props \<Longrightarrow>
   progress_effect cap conservative props now p =
     phase1 cap (conservative (p_fileDuration props)) (p_createdAt props) now"
  by (auto simp: progress_effect_def phase1_def Let_def isTranscribed_def isTranscribing_def)

lemma progress_transcribed:
  "\<not> anyFailed props \<Longrightarrow> isTranscribed props \<Longrightarrow>
   progress_effect cap conservative props now p =
     (if completedSteps props = 6 then 100 else 50 + (real (completedSteps props) / 6) * 50)"
  by (auto simp: progress_effect_def Let_def isTranscribed_def isTranscribing_def
      isGenerated_def totalSteps_six)

lemma progress_early:
  "\<not> anyFailed props \<Longrightarrow> \<not> isTranscribing props \<Longrightarrow> \<not> isTranscribed props \<Longrightarrow>
   progress_effect cap conservative props now p = 10"
  by (simp add: progress_effect_def)

lemma rank_transcribed: "isTranscribed props \<longleftrightarrow> phase_rank (transcriptionStatus props) = 2"
  by (simp add: isTranscribed_def phase_rank_def)

lemma rank_transcribing: "isTranscribing props \<longleftrightarrow> phase_rank (transcriptionStatus props) = 1"
  by (auto simp: isTranscribing_def phase_rank_def)

text \<open>
  C8, as the code has it. Take a positive cap and a positive conservative estimate, the
  same file and creation time at both evaluations, no failure at either, a clock and a
  count of completed steps that do not decrease, and a transcription status that does
  not move backwards. If moreover the later evaluation finds transcription running only
  when the earlier one already did, the later value is not below the earlier one.
\<close>

theorem progress_monotone:
  assumes cap: "0 < cap" and est: "0 < conservative (p_fileDuration a)"
    and same: "p_fileDuration b = p_fileDuration a" "p_createdAt b = p_createdAt a"
    and nofail: "\<not> anyFailed a" "\<not> anyFailed b"
    and time: "now_a \<le> now_b"
    and steps: "completedSteps a \<le> completedSteps b"
    and fwd: "phase_rank (transcriptionStatus a) \<le> phase_rank (transcriptionStatus b)"
    and started: "isTranscribing b \<longrightarrow> isTranscribing a"
  shows "progress_effect cap conservative a now_a pa \<le> progress_effect cap conservative b now_b pb"
proof -
  consider (running) "isTranscribing b" | (finished) "isTranscribed b"
    | (early) "\<not> isTranscribing b" "\<not> isTranscribed b"
    by blast
  then show ?thesis
  proof cases
    case running
    with started have ra: "isTranscribing a" by simp
    show ?thesis
      using phase1_mono[OF cap est time, of "p_createdAt a"]
      by (simp add: progress_transcribing[OF nofail(1) ra] progress_transcribing[OF nofail(2) running]
          same)
  next
    case finished
    have cb: "completedSteps b \<le> 6" by (rule completedSteps_le)
    have low: "50 \<le> progress_effect cap conservative b now_b pb"
      by (simp add: progress_transcribed[OF nofail(2) finished])
    consider (a_running) "isTranscribing a" | (a_done) "isTranscribed a"
      | (a_early) "\<not> isTranscribing a" "\<not> isTranscribed a"
      by blast
    then show ?thesis
    proof cases
      case a_running
      have "progress_effect cap conservative a now_a pa \<le> 50"
        by (simp add: progress_transcribing[OF nofail(1) a_running] phase1_le)
      with low show ?thesis by linarith
    next
      case a_done
      have "real (completedSteps a) \<le> real (completedSteps b)" using steps by simp
      then have m: "real (completedSteps a) / 6 * 50 \<le> real (completedSteps b) / 6 * 50"
        by simp
      have top: "real (completedSteps a) / 6 * 50 \<le> 50"
        using completedSteps_le[of a] by simp
      show ?thesis
        using m top steps cb
        by (simp add: progress_transcribed[OF nofail(1) a_done]
            progress_transcribed[OF nofail(2) finished])
    next
      case a_early
      have "progress_effect cap conservative a now_a pa = 10"
        by (rule progress_early[OF nofail(1) a_early])
      with low show ?thesis by linarith
    qed
  next
    case early
    then have "phase_rank (transcriptionStatus b) = 0"
      by (auto simp: isTranscribing_def isTranscribed_def phase_rank_def)
    with fwd have "phase_rank (transcriptionStatus a) = 0" by simp
    then have "\<not> isTranscribing a" "\<not> isTranscribed a"
      by (simp_all add: rank_transcribed rank_transcribing)
    then show ?thesis
      by (simp add: progress_early[OF nofail(1)] progress_early[OF nofail(2) early])
  qed
qed

text \<open>Two evaluations while transcription runs, two and thirty seconds after creation.\<close>

theorem progress_monotone_witness:
  "progress_effect 95 conservative_100 transcribing 2000 0
     \<le> progress_effect 95 conservative_100 transcribing 30000 0
   \<and> progress_effect 95 conservative_100 transcribing 30000 0 = 300 / 19"
proof -
  have nf: "\<not> anyFailed transcribing"
    by (simp add: anyFailed_def transcriptionStatus_def contentGenerationStatus_def
        stepStatuses_def transcribing_def status_of_def read_field_def normalized_def
        isJobState_def)
  have r: "isTranscribing transcribing"
    by (simp add: isTranscribing_def transcriptionStatus_def transcribing_def status_of_def
        read_field_def normalized_def isJobState_def)
  have c: "p_createdAt transcribing = 0"
    by (simp add: transcribing_def status_of_def)
  have v: "progress_effect 95 conservative_100 transcribing 30000 0 = 300 / 19"
    by (simp add: progress_transcribing[OF nf r] phase1_def conservative_100_def c)
  have "progress_effect 95 conservative_100 transcribing 2000 0
     \<le> progress_effect 95 conservative_100 transcribing 30000 0"
    by (rule progress_monotone) (simp_all add: conservative_100_def nf)
  with v show ?thesis by simp
qed

text \<open>
  From not started to running: nothing has failed, the clock and the count of completed
  steps do not decrease, the transcription status moves forward, and the value falls
  from 10 to 20 / 19.
\<close>

theorem progress_regresses_counterexample:
  "\<not> anyFailed not_started \<and> \<not> anyFailed transcribing
   \<and> completedSteps not_started \<le> completedSteps transcribing
   \<and> phase_rank (transcriptionStatus not_started)
       < phase_rank (transcriptionStatus transcribing)
   \<and> progress_effect 95 conservative_100 not_started 0 0 = 10
   \<and> progress_effect 95 conservative_100 transcribing 2000 10 = 20 / 19
   \<and> progress_effect 95 conservative_100 transcribing 2000 10
       < progress_effect 95 conservative_100 not_started 0 0"
proof -
  have nf: "\<not> anyFailed transcribing"
    by (simp add: anyFailed_def transcriptionStatus_def contentGenerationStatus_def
        stepStatuses_def transcribing_def status_of_def read_field_def normalized_def
        isJobState_def)
  have nf0: "\<not> anyFailed not_started"
    by (simp add: anyFailed_def transcriptionStatus_def contentGenerationStatus_def
        stepStatuses_def not_started_def status_of_def read_field_def normalized_def
        isJobState_def)
  have t0: "transcriptionStatus not_started = Some ''pending''"
    by (simp add: transcriptionStatus_def not_started_def status_of_def read_field_def
        normalized_def isJobState_def)
  have t1: "transcriptionStatus transcribing = Some ''running''"
    by (simp add: transcriptionStatus_def transcribing_def status_of_def read_field_def
        normalized_def isJobState_def)
  have c0: "completedSteps not_started = 0"
    by (simp add: completedSteps_def stepStatuses_def not_started_def status_of_def
        read_field_def normalized_def isJobState_def)
  have v0: "progress_effect 95 conservative_100 not_started 0 0 = 10"
    using nf0 by (simp add: progress_early isTranscribing_def isTranscribed_def t0)
  have r: "isTranscribing transcribing"
    by (simp add: isTranscribing_def t1)
  have c: "p_createdAt transcribing = 0"
    by (simp add: transcribing_def status_of_def)
  have v1: "progress_effect 95 conservative_100 transcribing 2000 10 = 20 / 19"
    by (simp add: progress_transcribing[OF nf r] phase1_def conservative_100_def c)
  show ?thesis
    using nf nf0 v0 v1 by (simp add: c0 t0 t1 phase_rank_def)
qed
end
